theory Spec2Isabelle
  imports Main "HOL-Library.Word" "HOL-Library.Char_ord" "HOL-Library.Sublist"
begin

section \<open>The interface helpers of the data-frame (TDFInterface.cxx)\<close>

text \<open>
  The development follows \<^verbatim>\<open>tree/treeplayer/src/TDFInterface.cxx\<close>.
  A \<^verbatim>\<open>std::string\<close> is a \<^typ>\<open>string\<close>, a \<^verbatim>\<open>ColumnNames_t\<close>
  (a vector of strings) is a \<^typ>\<open>string list\<close>, an \<^verbatim>\<open>unsigned int\<close> is a
  \<^typ>\<open>32 word\<close> and a \<^verbatim>\<open>size_t\<close> is a natural number (it is wider than
  an \<^verbatim>\<open>unsigned int\<close> on the 64-bit platforms of the library). A function that
  throws returns the error in the left summand; a loop counted by an
  \<^verbatim>\<open>unsigned int\<close> that may never leave its body returns \<open>None\<close>.
\<close>

subsection \<open>Errors, characters and numbers in text\<close>

text \<open>
  Every \<^verbatim>\<open>throw std::runtime_error(msg)\<close> of the file is the value
  \<open>runtime_error msg\<close>. \<open>ColumnCountMismatch\<close> is the error of the column
  selection, whose code and message are not part of this file.
\<close>

datatype error = runtime_error string | ColumnCountMismatch

definition newline :: char where
  "newline = CHR 0x0A"

definition dquote :: char where
  "dquote = CHR 0x22"

text \<open>
  \<^verbatim>\<open>s.c_str()\<close> handed to a function that takes a \<^verbatim>\<open>const char *\<close>: the
  characters before the first NUL.
\<close>

definition c_str :: "string \<Rightarrow> string" where
  "c_str s = takeWhile (\<lambda>c. c \<noteq> CHR 0x00) s"

text \<open>
  The decimal digits that \<^verbatim>\<open>operator<<\<close> and \<^verbatim>\<open>std::to_string\<close> write for an
  unsigned number.
\<close>

fun decimal :: "nat \<Rightarrow> string" where
  "decimal n =
     (if n < 10 then [char_of (48 + n)]
      else decimal (n div 10) @ [char_of (48 + n mod 10)])"

declare decimal.simps [simp del]

subsection \<open>The pattern matcher\<close>

text \<open>
  Modelled from the spec: the text-matching primitive (class \<^verbatim>\<open>TRegexp\<close>, constructor
  and \<^verbatim>\<open>Index\<close>), which the specification takes as a given capability that matches
  a pattern text with metacharacters; its code is not in \<^verbatim>\<open>TDFInterface.cxx\<close>.
  The model reads a pattern as a sequence of pieces. An element is a bracket
  expression \<^verbatim>\<open>[...]\<close> or \<^verbatim>\<open>[^...]\<close> of characters and ranges \<^verbatim>\<open>a-z\<close>, a dot
  for any character, a character quoted by a backslash, or any other character for
  itself; an element followed by \<^verbatim>\<open>*\<close>, \<^verbatim>\<open>+\<close> or \<^verbatim>\<open>?\<close> is repeated
  (any number of times, at least once, at most once). The patterns of this file
  begin and end with a bracket expression, so anchors never arise. A pattern that
  cannot be read matches nothing.
\<close>

datatype elem = Chr char | Any | Ccl bool "(char \<times> char) list"

datatype piece = One elem | Opt elem | Star elem | Plus elem

fun doccl_items :: "string \<Rightarrow> ((char \<times> char) list \<times> string) option" where
  "doccl_items [] = None"
| "doccl_items (c # src) =
     (if c = CHR '']'' then Some ([], src)
      else case src of
        d # e # src' \<Rightarrow>
          if d = CHR ''-'' \<and> e \<noteq> CHR '']''
          then map_option (\<lambda>(rs, rest). ((c, e) # rs, rest)) (doccl_items src')
          else map_option (\<lambda>(rs, rest). ((c, c) # rs, rest)) (doccl_items src)
      | _ \<Rightarrow> map_option (\<lambda>(rs, rest). ((c, c) # rs, rest)) (doccl_items src))"

definition doccl :: "string \<Rightarrow> (elem \<times> string) option" where
  "doccl src =
     (if src \<noteq> [] \<and> hd src = CHR ''^''
      then map_option (\<lambda>(rs, rest). (Ccl True rs, rest)) (doccl_items (tl src))
      else map_option (\<lambda>(rs, rest). (Ccl False rs, rest)) (doccl_items src))"

lemma doccl_items_shorter:
  "doccl_items src = Some (rs, rest) \<Longrightarrow> length rest < length src"
proof (induction src arbitrary: rs rest rule: doccl_items.induct)
  case 1
  then show ?case by simp
next
  case (2 c src)
  show ?case
  proof (cases "c = CHR '']''")
    case True
    with "2.prems" show ?thesis by simp
  next
    case notend: False
    have "length rest < length src"
    proof (cases src)
      case Nil
      with "2.prems" notend obtain rs' where "doccl_items src = Some (rs', rest)"
        by auto
      from "2.IH"(1) [OF notend Nil this] show ?thesis .
    next
      case src: (Cons d src1)
      show ?thesis
      proof (cases src1)
        case Nil
        with "2.prems" notend src obtain rs' where "doccl_items src = Some (rs', rest)"
          by auto
        from "2.IH"(2) [OF notend src Nil this] show ?thesis .
      next
        case src1: (Cons e src2)
        show ?thesis
        proof (cases "d = CHR ''-'' \<and> e \<noteq> CHR '']''")
          case True
          with "2.prems" notend src src1 obtain rs' where "doccl_items src2 = Some (rs', rest)"
            by auto
          from "2.IH"(3) [OF notend src src1 True this] src src1 show ?thesis by simp
        next
          case False
          with "2.prems" notend src src1 obtain rs' where "doccl_items src = Some (rs', rest)"
            by auto
          from "2.IH"(4) [OF notend src src1 False this] show ?thesis .
        qed
      qed
    qed
    then show ?thesis by simp
  qed
qed

lemma doccl_shorter:
  assumes "doccl src = Some (ccl, rest)"
  shows "length rest \<le> length src"
proof (cases "src \<noteq> [] \<and> hd src = CHR ''^''")
  case True
  with assms obtain rs where "doccl_items (tl src) = Some (rs, rest)"
    by (auto simp: doccl_def)
  from doccl_items_shorter [OF this] show ?thesis by simp
next
  case False
  with assms obtain rs where "doccl_items src = Some (rs, rest)"
    by (auto simp: doccl_def)
  from doccl_items_shorter [OF this] show ?thesis by simp
qed

function Makepat_from :: "string \<Rightarrow> piece list \<Rightarrow> piece list option" where
  "Makepat_from [] dest = Some (rev dest)"
| "Makepat_from (c # exp) dest =
     (if c = CHR ''.'' then Makepat_from exp (One Any # dest)
      else if c = CHR ''['' then
        (case doccl exp of
           None \<Rightarrow> None
         | Some (ccl, exp') \<Rightarrow> Makepat_from exp' (One ccl # dest))
      else if c = CHR ''*'' \<or> c = CHR ''+'' \<or> c = CHR ''?'' then
        (case dest of
           One e # dest' \<Rightarrow>
             Makepat_from exp
               ((if c = CHR ''*'' then Star e else if c = CHR ''+'' then Plus e else Opt e)
                # dest')
         | _ \<Rightarrow> None)
      else if c = CHR 0x5C then
        (case exp of
           [] \<Rightarrow> Some (rev (One (Chr c) # dest))
         | d # exp' \<Rightarrow> Makepat_from exp' (One (Chr d) # dest))
      else Makepat_from exp (One (Chr c) # dest))"
  by pat_completeness auto
termination
  by (relation "measure (\<lambda>(exp, dest). length exp)") (auto dest: doccl_shorter)

declare Makepat_from.simps(2) [simp del]

definition Makepat :: "string \<Rightarrow> piece list option" where
  "Makepat exp = Makepat_from exp []"

fun omatch :: "elem \<Rightarrow> char \<Rightarrow> bool" where
  "omatch (Chr a) c = (a = c)"
| "omatch Any c = True"
| "omatch (Ccl negative rs) c =
     (negative \<noteq> list_ex (\<lambda>(first, last). min first last \<le> c \<and> c \<le> max first last) rs)"

fun patcmp :: "piece list \<Rightarrow> string \<Rightarrow> bool" where
  "patcmp [] str = True"
| "patcmp (One e # pat) str =
     (case str of [] \<Rightarrow> False | c # str' \<Rightarrow> omatch e c \<and> patcmp pat str')"
| "patcmp (Opt e # pat) str =
     (case str of
        [] \<Rightarrow> patcmp pat []
      | c # str' \<Rightarrow> if omatch e c then patcmp pat str' else patcmp pat (c # str'))"
| "patcmp (Star e # pat) str =
     (patcmp pat str \<or>
      (case str of [] \<Rightarrow> False | c # str' \<Rightarrow> omatch e c \<and> patcmp (Star e # pat) str'))"
| "patcmp (Plus e # pat) str =
     (case str of [] \<Rightarrow> False | c # str' \<Rightarrow> omatch e c \<and> patcmp (Star e # pat) str')"

fun Matchs :: "piece list \<Rightarrow> string \<Rightarrow> bool" where
  "Matchs pat [] = patcmp pat []"
| "Matchs pat (c # str) = (patcmp pat (c # str) \<or> Matchs pat str)"

text \<open>\<^verbatim>\<open>-1 != TRegexp(re).Index(str, &len)\<close>: the pattern is found in the text.\<close>

definition TRegexp_Index :: "string \<Rightarrow> string \<Rightarrow> bool" where
  "TRegexp_Index re str = (case Makepat re of None \<Rightarrow> False | Some pat \<Rightarrow> Matchs pat str)"

subsection \<open>FindUsedColumnNames\<close>

text \<open>
  \<open>branches\<close> is the \<^verbatim>\<open>TObjArray *\<close> of the tree's branches, here the list of their
  names, or \<open>None\<close> for the null pointer. Each of the three loops builds the pattern
  \<^verbatim>\<open>regexBit + name + regexBit\<close> and looks for it in the padded expression; only the
  last loop looks the name up among the names found so far.
\<close>

definition regexBit :: string where
  "regexBit = ''[^a-zA-Z0-9_]''"

definition bNameRegex_Index :: "string \<Rightarrow> string \<Rightarrow> bool" where
  "bNameRegex_Index brName paddedExpr =
     (let bNameRegexContent = regexBit @ brName @ regexBit
      in TRegexp_Index (c_str bNameRegexContent) (c_str paddedExpr))"

definition FindUsedColumnNames ::
  "string \<Rightarrow> string list option \<Rightarrow> string list \<Rightarrow> string list \<Rightarrow> string list" where
  "FindUsedColumnNames expression branches customColumns dsColumns =
     (let paddedExpr = '' '' @ expression @ '' '';
          usedBranches = [];
          usedBranches =
            fold (\<lambda>brName usedBranches.
                    if bNameRegex_Index brName paddedExpr then usedBranches @ [brName]
                    else usedBranches)
              customColumns usedBranches;
          usedBranches =
            (case branches of
               None \<Rightarrow> usedBranches
             | Some bros \<Rightarrow>
                 fold (\<lambda>brName usedBranches.
                         if bNameRegex_Index brName paddedExpr then usedBranches @ [brName]
                         else usedBranches)
                   bros usedBranches);
          usedBranches =
            fold (\<lambda>col usedBranches.
                    if bNameRegex_Index col paddedExpr
                    then (if col \<notin> set usedBranches then usedBranches @ [col]
                          else usedBranches)
                    else usedBranches)
              dsColumns usedBranches
      in usedBranches)"

text \<open>
  The names of the branches behind the pointer, none for the null pointer, and the test
  that each of the three loops makes on a name.
\<close>

definition branchNames :: "string list option \<Rightarrow> string list" where
  "branchNames branches = (case branches of None \<Rightarrow> [] | Some bros \<Rightarrow> bros)"

definition column_found :: "string \<Rightarrow> string \<Rightarrow> bool" where
  "column_found expression brName = bNameRegex_Index brName ('' '' @ expression @ '' '')"

text \<open>
  The words of the specification: an identifier character is a letter, a digit or an
  underscore, and a name occurs in an expression as an isolated token when an occurrence
  of it is delimited on each side by a non-identifier character or by an end of the
  expression.
\<close>

definition identifier_char :: "char \<Rightarrow> bool" where
  "identifier_char ch =
     (ch = CHR ''_''
      \<or> (CHR ''0'' \<le> ch \<and> ch \<le> CHR ''9'')
      \<or> (CHR ''A'' \<le> ch \<and> ch \<le> CHR ''Z'')
      \<or> (CHR ''a'' \<le> ch \<and> ch \<le> CHR ''z''))"


text \<open>The characters that the pattern matcher does not take for themselves.\<close>

definition pattern_metachar :: "char \<Rightarrow> bool" where
  "pattern_metachar c =
     (c = CHR ''.'' \<or> c = CHR ''['' \<or> c = CHR ''*'' \<or> c = CHR ''+'' \<or> c = CHR ''?''
      \<or> c = CHR 0x5C)"


subsection \<open>String streams\<close>

text \<open>
  A \<^verbatim>\<open>std::stringstream\<close>: its characters, its put position and its fail state.
  \<^verbatim>\<open>ss << s\<close> writes at the put position, over the characters that are there;
  \<^verbatim>\<open>ss.str("")\<close> replaces the characters and puts at the start again;
  \<^verbatim>\<open>ss.seekp(off, ss.cur)\<close> moves the put position and fails when the target is
  outside the characters.
\<close>

record sstream =
  chars :: string
  pptr :: nat
  failbit :: bool

definition ss_new :: sstream where
  "ss_new = \<lparr>chars = [], pptr = 0, failbit = False\<rparr>"

definition ss_write :: "sstream \<Rightarrow> string \<Rightarrow> sstream" where
  "ss_write ss s =
     (if failbit ss then ss
      else ss\<lparr>chars := take (pptr ss) (chars ss) @ s @ drop (pptr ss + length s) (chars ss),
              pptr := pptr ss + length s\<rparr>)"

definition ss_str :: "sstream \<Rightarrow> string" where
  "ss_str ss = chars ss"

definition ss_set_str :: "sstream \<Rightarrow> string \<Rightarrow> sstream" where
  "ss_set_str ss s = ss\<lparr>chars := s, pptr := 0\<rparr>"

definition ss_seekp_cur :: "sstream \<Rightarrow> int \<Rightarrow> sstream" where
  "ss_seekp_cur ss off =
     (if failbit ss then ss
      else if 0 \<le> int (pptr ss) + off \<and> int (pptr ss) + off \<le> int (length (chars ss))
      then ss\<lparr>pptr := nat (int (pptr ss) + off)\<rparr>
      else ss\<lparr>failbit := True\<rparr>)"

text \<open>The stream after \<open>str\<close> has been written to an empty stream.\<close>

definition ss_of :: "string \<Rightarrow> sstream" where
  "ss_of str = \<lparr>chars = str, pptr = length str, failbit = False\<rparr>"

subsection \<open>JitTransformation\<close>

text \<open>
  What the function calls and this file does not define is a parameter of the model:
  \<^verbatim>\<open>ColumnName2ColumnTypeName\<close> (which may throw), the column names of a data source,
  the text that \<^verbatim>\<open>operator<<\<close> writes for a pointer, the class name that
  \<^verbatim>\<open>TClass::GetClass\<close> finds for a type identity (none when it returns null), and
  the three entry points of the interpreter, each a function of the text submitted and
  of the state of the interpreter \<open>'i\<close>: \<^verbatim>\<open>ProcessLine\<close> returns an error code
  (\<open>0\<close> is \<^verbatim>\<open>kNoError\<close>), \<^verbatim>\<open>Declare\<close> a success flag, \<^verbatim>\<open>Calc\<close> a value and an
  error code. A pointer is its address.
\<close>

type_synonym pointer = nat

record ('tree, 'col, 'ds, 'tinfo, 'i) externals =
  ColumnName2ColumnTypeName :: "string \<Rightarrow> 'tree \<Rightarrow> 'col option \<Rightarrow> 'ds option \<Rightarrow> error + string"
  GetColumnNames :: "'ds \<Rightarrow> string list"
  print_pointer :: "pointer \<Rightarrow> string"
  GetClass :: "'tinfo \<Rightarrow> string option"
  ProcessLine :: "string \<Rightarrow> 'i \<Rightarrow> nat \<times> 'i"
  Declare :: "string \<Rightarrow> 'i \<Rightarrow> bool \<times> 'i"
  Calc :: "string \<Rightarrow> 'i \<Rightarrow> (int \<times> nat) \<times> 'i"

text \<open>
  The state that an invocation changes: the static counter \<^verbatim>\<open>iNs\<close>, the state of the
  interpreter, and the requests submitted to the interpreter so far, each with its
  answer.
\<close>

datatype request =
  ProcessLine_request string nat
| Declare_request string bool
| Calc_request string int nat

record 'i jit_state =
  iNs :: "32 word"
  interpreter :: 'i
  submitted :: "request list"

definition gInterpreter_ProcessLine ::
  "('tree, 'col, 'ds, 'tinfo, 'i) externals \<Rightarrow> string \<Rightarrow> 'i jit_state \<Rightarrow> nat \<times> 'i jit_state" where
  "gInterpreter_ProcessLine ext line s =
     (let (interpErrCode, i) = ProcessLine ext line (interpreter s)
      in (interpErrCode,
          s\<lparr>interpreter := i, submitted := submitted s @ [ProcessLine_request line interpErrCode]\<rparr>))"

definition gInterpreter_Declare ::
  "('tree, 'col, 'ds, 'tinfo, 'i) externals \<Rightarrow> string \<Rightarrow> 'i jit_state \<Rightarrow> bool \<times> 'i jit_state" where
  "gInterpreter_Declare ext src s =
     (let (ok, i) = Declare ext src (interpreter s)
      in (ok, s\<lparr>interpreter := i, submitted := submitted s @ [Declare_request src ok]\<rparr>))"

definition gInterpreter_Calc ::
  "('tree, 'col, 'ds, 'tinfo, 'i) externals \<Rightarrow> string \<Rightarrow> 'i jit_state
   \<Rightarrow> (int \<times> nat) \<times> 'i jit_state" where
  "gInterpreter_Calc ext line s =
     (let ((retVal, interpErrCode), i) = Calc ext line (interpreter s)
      in ((retVal, interpErrCode),
          s\<lparr>interpreter := i,
            submitted := submitted s @ [Calc_request line retVal interpErrCode]\<rparr>))"

text \<open>
  The text of a request; a request for a declaration that the interpreter refused; a
  request for a call.
\<close>

fun request_text :: "request \<Rightarrow> string" where
  "request_text (ProcessLine_request line interpErrCode) = line"
| "request_text (Declare_request src ok) = src"
| "request_text (Calc_request line retVal interpErrCode) = line"

fun declaration_failed :: "request \<Rightarrow> bool" where
  "declaration_failed (ProcessLine_request line interpErrCode) = (interpErrCode \<noteq> 0)"
| "declaration_failed (Declare_request src ok) = (\<not> ok)"
| "declaration_failed (Calc_request line retVal interpErrCode) = False"

fun is_Calc_request :: "request \<Rightarrow> bool" where
  "is_Calc_request (Calc_request line retVal interpErrCode) = True"
| "is_Calc_request q = False"

fun is_ProcessLine_request :: "request \<Rightarrow> bool" where
  "is_ProcessLine_request (ProcessLine_request line interpErrCode) = True"
| "is_ProcessLine_request q = False"

text \<open>
  What is to hold of the outcome \<open>r\<close> of an invocation and of the requests \<open>new\<close> that
  it submitted: when a request for a declaration was refused, the invocation threw an
  error whose message includes the text that was generated for the request, and no call
  was submitted.
\<close>

definition failures_reported :: "(error + int) option \<Rightarrow> request list \<Rightarrow> bool" where
  "failures_reported r new =
     (\<forall>q \<in> set new. declaration_failed q \<longrightarrow>
        (\<exists>msg fragment. r = Some (Inl (runtime_error msg)) \<and> request_text q = c_str fragment
           \<and> sublist fragment msg)
        \<and> (\<forall>q' \<in> set new. \<not> is_Calc_request q'))"

text \<open>\<^verbatim>\<open>ss << "__tdf_" << iNs\<close> and \<^verbatim>\<open>nsName = ss.str()\<close>.\<close>

definition jit_nsName :: "32 word \<Rightarrow> string" where
  "jit_nsName n = ss_str (foldl ss_write ss_new [''__tdf_'', decimal (unat n)])"

text \<open>
  The block under \<^verbatim>\<open>if (exprNeedsVariables)\<close>: the declarations of the variables, one
  for each used name, and their submission. It returns the types of the names and the
  stream, emptied again.
\<close>

fun jit_declarations ::
  "('tree, 'col, 'ds, 'tinfo, 'i) externals \<Rightarrow> (string \<rightharpoonup> 'col) \<Rightarrow> 'tree \<Rightarrow> 'ds option
   \<Rightarrow> string list \<Rightarrow> sstream \<Rightarrow> string list \<Rightarrow> error + sstream \<times> string list" where
  "jit_declarations ext tmpBookedBranches tree ds [] ss usedBranchesTypes =
     Inr (ss, usedBranchesTypes)"
| "jit_declarations ext tmpBookedBranches tree ds (brName # usedBranches) ss usedBranchesTypes =
     (let tmpBr = tmpBookedBranches brName
      in case ColumnName2ColumnTypeName ext brName tree tmpBr ds of
           Inl e \<Rightarrow> Inl e
         | Inr brTypeName \<Rightarrow>
             jit_declarations ext tmpBookedBranches tree ds usedBranches
               (foldl ss_write ss [brTypeName, '' '', brName, [CHR '';'', newline]])
               (usedBranchesTypes @ [brTypeName]))"

definition jit_declare_variables ::
  "('tree, 'col, 'ds, 'tinfo, 'i) externals \<Rightarrow> string \<Rightarrow> string list \<Rightarrow> (string \<rightharpoonup> 'col)
   \<Rightarrow> 'tree \<Rightarrow> 'ds option \<Rightarrow> sstream \<Rightarrow> 'i jit_state
   \<Rightarrow> (error + string list \<times> sstream) \<times> 'i jit_state" where
  "jit_declare_variables ext nsName usedBranches tmpBookedBranches tree ds ss s =
     (let ss = foldl ss_write ss [''namespace '', nsName, [CHR '' '', CHR ''{'', newline]]
      in case jit_declarations ext tmpBookedBranches tree ds usedBranches ss [] of
           Inl e \<Rightarrow> (Inl e, s)
         | Inr (ss, usedBranchesTypes) \<Rightarrow>
             (let ss = ss_write ss ''}'';
                  variableDeclarations = ss_str ss;
                  ss = ss_set_str ss [];
                  (interpErrCode, s) = gInterpreter_ProcessLine ext (c_str variableDeclarations) s
              in if interpErrCode \<noteq> 0
                 then (Inl (runtime_error
                         (''Cannot declare these variables:  '' @ variableDeclarations
                          @ [newline] @ ''Interpreter error code is '' @ decimal interpErrCode
                          @ ''.'')), s)
                 else (Inr (usedBranchesTypes, ss), s)))"

text \<open>
  The loop that writes the parameters of the lambda. The index is an
  \<^verbatim>\<open>unsigned int\<close>, the bound a \<^verbatim>\<open>size_t\<close>.
\<close>

partial_function (option) jit_lambda_parameters ::
  "string list \<Rightarrow> string list \<Rightarrow> 32 word \<Rightarrow> sstream \<Rightarrow> sstream option" where
  "jit_lambda_parameters usedBranchesTypes usedBranches i ss =
     (if unat i < length usedBranchesTypes
      then jit_lambda_parameters usedBranchesTypes usedBranches (i + 1)
             (foldl ss_write ss
                [usedBranchesTypes ! unat i, ''& '', usedBranches ! unat i, '', ''])
      else Some ss)"

declare jit_lambda_parameters.simps [code]

text \<open>The call that is submitted to \<^verbatim>\<open>Calc\<close>, from the lambda on.\<close>

definition jit_invocation ::
  "('tree, 'col, 'ds, 'tinfo, 'i) externals \<Rightarrow> pointer \<Rightarrow> string \<Rightarrow> string \<Rightarrow> string \<Rightarrow> string
   \<Rightarrow> string list \<Rightarrow> string \<Rightarrow> sstream \<Rightarrow> sstream" where
  "jit_invocation ext thisPtr methodName interfaceTypeName name filterLambda usedBranches
     returnTypeName ss =
     (let exprNeedsVariables = (usedBranches \<noteq> []);
          targetTypeName = ''ROOT::Experimental::TDF::TInterface<'' @ returnTypeName @ ''>'';
          ss = ss_set_str ss [];
          ss = foldl ss_write ss
                 [targetTypeName, ''((('', interfaceTypeName, ''*)'', print_pointer ext thisPtr,
                  '')->'', methodName, ''(''];
          ss = (if methodName = ''Define'' then foldl ss_write ss [[dquote], name, dquote # '', '']
                else ss);
          ss = foldl ss_write ss [filterLambda, '', {''];
          ss = fold (\<lambda>brName ss. foldl ss_write ss [[dquote], brName, dquote # '', ''])
                 usedBranches ss;
          ss = (if exprNeedsVariables then ss_seekp_cur ss (- 2) else ss);
          ss = ss_write ss ''}'';
          ss = (if methodName = ''Filter'' then foldl ss_write ss ['', '' @ [dquote], name, [dquote]]
                else ss)
      in ss_write ss ''));'')"

text \<open>
  The function after the declarations of the variables: the expression is declared on
  its own in the namespace, then the lambda is built and the call is submitted.
\<close>

definition jit_check_and_invoke ::
  "('tree, 'col, 'ds, 'tinfo, 'i) externals \<Rightarrow> pointer \<Rightarrow> string \<Rightarrow> string \<Rightarrow> string \<Rightarrow> string
   \<Rightarrow> string \<Rightarrow> string \<Rightarrow> string list \<Rightarrow> string list \<Rightarrow> sstream \<Rightarrow> 'i jit_state
   \<Rightarrow> (error + int) option \<times> 'i jit_state" where
  "jit_check_and_invoke ext thisPtr methodName interfaceTypeName name expression returnTypeName
     nsName usedBranches usedBranchesTypes ss s =
     (let ss = foldl ss_write ss
                 [''namespace '', nsName, ''{ auto res = '', expression,
                  [CHR '';'', CHR ''}'', newline]];
          (declared, s) = gInterpreter_Declare ext (c_str (ss_str ss)) s
      in if \<not> declared
         then (Some (Inl (runtime_error
                       (''Cannot interpret this expression: '' @ '' '' @ ss_str ss))), s)
         else
           (let ss = ss_set_str ss [];
                ss = ss_write ss ''[](''
            in case jit_lambda_parameters usedBranchesTypes usedBranches 0 ss of
                 None \<Rightarrow> (None, s)
               | Some ss \<Rightarrow>
                   (let ss = (if usedBranchesTypes \<noteq> [] then ss_seekp_cur ss (- 2) else ss);
                        ss = foldl ss_write ss [''){ return '', expression, '';}''];
                        filterLambda = ss_str ss;
                        ss = jit_invocation ext thisPtr methodName interfaceTypeName name
                               filterLambda usedBranches returnTypeName ss;
                        ((retVal, interpErrCode), s) =
                          gInterpreter_Calc ext (c_str (ss_str ss)) s
                    in if interpErrCode \<noteq> 0 \<or> retVal = 0
                       then (Some (Inl (runtime_error
                              (''Cannot interpret the invocation to '' @ methodName
                               @ '':  '' @ ss_str ss
                               @ (if interpErrCode \<noteq> 0
                                  then [newline] @ ''Interpreter error code is ''
                                       @ decimal interpErrCode @ ''.''
                                  else [])))), s)
                       else (Some (Inr retVal), s))))"

definition JitTransformation ::
  "('tree, 'col, 'ds, 'tinfo, 'i) externals \<Rightarrow> pointer \<Rightarrow> string \<Rightarrow> string \<Rightarrow> string \<Rightarrow> string
   \<Rightarrow> string list option \<Rightarrow> string list \<Rightarrow> (string \<rightharpoonup> 'col) \<Rightarrow> 'tree \<Rightarrow> string \<Rightarrow> 'ds option
   \<Rightarrow> 'i jit_state \<Rightarrow> (error + int) option \<times> 'i jit_state" where
  "JitTransformation ext thisPtr methodName interfaceTypeName name expression branches
     customColumns tmpBookedBranches tree returnTypeName ds s =
     (let dsColumns = (case ds of Some d \<Rightarrow> GetColumnNames ext d | None \<Rightarrow> []);
          usedBranches = FindUsedColumnNames expression branches customColumns dsColumns;
          exprNeedsVariables = (usedBranches \<noteq> []);
          nsName = jit_nsName (iNs s);
          s = s\<lparr>iNs := iNs s + 1\<rparr>;
          ss = ss_new
      in case (if exprNeedsVariables
               then jit_declare_variables ext nsName usedBranches tmpBookedBranches tree ds ss s
               else (Inr ([], ss), s)) of
           (Inl e, s) \<Rightarrow> (Some (Inl e), s)
         | (Inr (usedBranchesTypes, ss), s) \<Rightarrow>
             jit_check_and_invoke ext thisPtr methodName interfaceTypeName name expression
               returnTypeName nsName usedBranches usedBranchesTypes ss s)"

text \<open>
  A sequence of invocations, one after the other, each with its own arguments, and the
  scope names that they synthesize; an invocation that does not return is the last.
\<close>

record ('tree, 'col, 'ds) invocation =
  inv_thisPtr :: pointer
  inv_methodName :: string
  inv_interfaceTypeName :: string
  inv_name :: string
  inv_expression :: string
  inv_branches :: "string list option"
  inv_customColumns :: "string list"
  inv_tmpBookedBranches :: "string \<rightharpoonup> 'col"
  inv_tree :: 'tree
  inv_returnTypeName :: string
  inv_ds :: "'ds option"



text \<open>
  An example of the surroundings, used to run the functions on concrete arguments: every
  column has the type \<^verbatim>\<open>double\<close>, a type identity is the name of its class, a pointer
  is written in decimal digits after \<^verbatim>\<open>0x\<close>, and the interpreter accepts every
  request; and an invocation that adds a filter on no column.
\<close>

definition example_externals :: "(unit, unit, unit, string, unit) externals" where
  "example_externals =
     \<lparr>ColumnName2ColumnTypeName = (\<lambda>colName tree tmpBranch ds. Inr ''double''),
      GetColumnNames = (\<lambda>ds. []),
      print_pointer = (\<lambda>p. ''0x'' @ decimal p),
      GetClass = (\<lambda>t. Some t),
      ProcessLine = (\<lambda>line i. (0, i)),
      Declare = (\<lambda>src i. (True, i)),
      Calc = (\<lambda>line i. ((1, 0), i))\<rparr>"


subsection \<open>JitBuildAndBook\<close>

text \<open>
  The three loops of the function that count with \<^verbatim>\<open>auto i = 0u\<close> up to a
  \<^verbatim>\<open>size_t\<close>: the pointers to the temporary columns, the names of the types of the
  columns (with the \<^verbatim>\<open>throw\<close> for an empty name), and the quoted column names in the
  call. The stream \<^verbatim>\<open>createAction_str\<close> is only written at its end, so it is the
  string written so far.
\<close>

partial_function (option) JitBuildAndBook_tmpBranchPtrs ::
  "(string \<rightharpoonup> 'col) \<Rightarrow> string list \<Rightarrow> nat \<Rightarrow> 32 word \<Rightarrow> 'col option list
   \<Rightarrow> 'col option list option" where
  "JitBuildAndBook_tmpBranchPtrs customColumns bl nBranches i tmpBranchPtrs =
     (if unat i < nBranches
      then JitBuildAndBook_tmpBranchPtrs customColumns bl nBranches (i + 1)
             (case customColumns (bl ! unat i) of
                None \<Rightarrow> tmpBranchPtrs
              | Some tmpBranch \<Rightarrow> tmpBranchPtrs[unat i := Some tmpBranch])
      else Some tmpBranchPtrs)"

declare JitBuildAndBook_tmpBranchPtrs.simps [code]

partial_function (option) JitBuildAndBook_columnTypeNames ::
  "('tree, 'col, 'ds, 'tinfo, 'i) externals \<Rightarrow> string list \<Rightarrow> 'tree \<Rightarrow> 'col option list
   \<Rightarrow> 'ds option \<Rightarrow> nat \<Rightarrow> 32 word \<Rightarrow> string list \<Rightarrow> (error + string list) option" where
  "JitBuildAndBook_columnTypeNames ext bl tree tmpBranchPtrs ds nBranches i columnTypeNames =
     (if unat i < nBranches
      then (case ColumnName2ColumnTypeName ext (bl ! unat i) tree (tmpBranchPtrs ! unat i) ds of
              Inl e \<Rightarrow> Some (Inl e)
            | Inr columnTypeName \<Rightarrow>
                if columnTypeName = []
                then Some (Inl (runtime_error
                       (c_str (''The type of column '' @ bl ! unat i
                               @ '' could not be guessed. Please specify one.''))))
                else JitBuildAndBook_columnTypeNames ext bl tree tmpBranchPtrs ds nBranches
                       (i + 1) (columnTypeNames[unat i := columnTypeName]))
      else Some (Inr columnTypeNames))"

declare JitBuildAndBook_columnTypeNames.simps [code]

partial_function (option) JitBuildAndBook_names ::
  "string list \<Rightarrow> 32 word \<Rightarrow> string \<Rightarrow> string option" where
  "JitBuildAndBook_names bl i createAction_str =
     (if unat i < length bl
      then JitBuildAndBook_names bl (i + 1)
             ((if i \<noteq> 0 then createAction_str @ '', '' else createAction_str)
              @ [dquote] @ bl ! unat i @ [dquote])
      else Some createAction_str)"

declare JitBuildAndBook_names.simps [code]

definition JitBuildAndBook ::
  "('tree, 'col, 'ds, 'tinfo, 'i) externals \<Rightarrow> string list \<Rightarrow> string \<Rightarrow> pointer \<Rightarrow> 'tinfo
   \<Rightarrow> 'tinfo \<Rightarrow> pointer \<Rightarrow> 'tree \<Rightarrow> 32 word \<Rightarrow> (string \<rightharpoonup> 'col) \<Rightarrow> 'ds option
   \<Rightarrow> (error + string) option" where
  "JitBuildAndBook ext bl prevNodeTypename prevNode art at rOnHeap tree nSlots customColumns ds =
     (let nBranches = length bl
      in case JitBuildAndBook_tmpBranchPtrs customColumns bl nBranches 0
                (replicate nBranches None) of
           None \<Rightarrow> None
         | Some tmpBranchPtrs \<Rightarrow>
        (case JitBuildAndBook_columnTypeNames ext bl tree tmpBranchPtrs ds nBranches 0
                (replicate nBranches []) of
           None \<Rightarrow> None
         | Some (Inl e) \<Rightarrow> Some (Inl e)
         | Some (Inr columnTypeNames) \<Rightarrow>
        (case GetClass ext art of
           None \<Rightarrow> Some (Inl (runtime_error (c_str
                     ''An error occurred while inferring the result type of an operation.'')))
         | Some actionResultTypeName \<Rightarrow>
        (case GetClass ext at of
           None \<Rightarrow> Some (Inl (runtime_error (c_str
                     ''An error occurred while inferring the action type of the operation.'')))
         | Some actionTypeName \<Rightarrow>
        (let createAction_str = ''ROOT::Internal::TDF::CallBuildAndBook'' @ ''<'' @ actionTypeName;
             createAction_str =
               foldl (\<lambda>str colType. str @ '', '' @ colType) createAction_str columnTypeNames;
             createAction_str = createAction_str @ ''>(*reinterpret_cast<'' @ prevNodeTypename
               @ ''*>('' @ print_pointer ext prevNode @ ''), {''
         in case JitBuildAndBook_names bl 0 createAction_str of
              None \<Rightarrow> None
            | Some createAction_str \<Rightarrow>
                Some (Inr (createAction_str @ ''}, '' @ decimal (unat nSlots)
                           @ '', reinterpret_cast<'' @ actionResultTypeName @ ''*>(''
                           @ print_pointer ext rOnHeap @ ''));'')))))))"

text \<open>The strings of a list with \<^verbatim>\<open>", "\<close> between them.\<close>

fun comma_separated :: "string list \<Rightarrow> string" where
  "comma_separated [] = []"
| "comma_separated [x] = x"
| "comma_separated (x # y # ys) = x @ '', '' @ comma_separated (y # ys)"

subsection \<open>AtLeastOneEmptyString\<close>

text \<open>
  \<^verbatim>\<open>for (const auto &s : strings) { if (s.empty()) return true; } return false;\<close>
\<close>

fun AtLeastOneEmptyString :: "string list \<Rightarrow> bool" where
  "AtLeastOneEmptyString [] = False"
| "AtLeastOneEmptyString (s # strings) =
     (if s = [] then True else AtLeastOneEmptyString strings)"

subsection \<open>FindUndefinedDSColumns\<close>

text \<open>
  The loop \<^verbatim>\<open>for (auto i = 0u; i < nColumns; ++i) mustBeDefined[i] = ...\<close>: the
  index \<open>i\<close> is an \<^verbatim>\<open>unsigned int\<close> and \<open>nColumns\<close> a \<^verbatim>\<open>size_t\<close>, so the
  comparison is made on the value of \<open>i\<close> and \<open>++i\<close> wraps around at \<open>2 ^ 32\<close>.
  \<^verbatim>\<open>std::find(..) == definedCols.end()\<close> says that the name is not an element.
\<close>

partial_function (option) FindUndefinedDSColumns_loop ::
  "string list \<Rightarrow> string list \<Rightarrow> nat \<Rightarrow> 32 word \<Rightarrow> bool list \<Rightarrow> bool list option" where
  "FindUndefinedDSColumns_loop requestedCols definedCols nColumns i mustBeDefined =
     (if unat i < nColumns
      then FindUndefinedDSColumns_loop requestedCols definedCols nColumns (i + 1)
             (mustBeDefined[unat i := (requestedCols ! unat i \<notin> set definedCols)])
      else Some mustBeDefined)"

declare FindUndefinedDSColumns_loop.simps [code]

definition FindUndefinedDSColumns :: "string list \<Rightarrow> string list \<Rightarrow> bool list option" where
  "FindUndefinedDSColumns requestedCols definedCols =
     (let nColumns = length requestedCols;
          mustBeDefined = replicate nColumns False
      in FindUndefinedDSColumns_loop requestedCols definedCols nColumns 0 mustBeDefined)"

section \<open>Properties\<close>

subsection \<open>Counting with an unsigned index\<close>

lemma unat_succ_32:
  fixes i :: "32 word"
  assumes "unat i < n" and "n < 2 ^ 32"
  shows "unat (i + 1) = Suc (unat i)"
proof -
  have "unat i + unat (1 :: 32 word) < 2 ^ LENGTH(32)"
    using assms by simp
  then have "unat (i + 1) = unat i + unat (1 :: 32 word)"
    by (simp only: unat_add_lem [THEN iffD1])
  then show ?thesis by simp
qed

subsection \<open>FindUsedColumnNames: order and duplicates\<close>

lemma fold_emplace_back:
  "fold (\<lambda>x used. if P x then used @ [x] else used) xs used = used @ filter P xs"
  by (induction xs arbitrary: used) simp_all

lemma fold_emplace_back_new:
  "\<exists>new. fold (\<lambda>x used. if P x then (if x \<notin> set used then used @ [x] else used) else used) xs used
            = used @ new
         \<and> subseq new xs \<and> distinct new \<and> set new = {x \<in> set xs. P x} - set used"
proof (induction xs arbitrary: used)
  case Nil
  then show ?case by simp
next
  case (Cons x xs)
  show ?case
  proof (cases "P x \<and> x \<notin> set used")
    case True
    from Cons [of "used @ [x]"] obtain new where
      new: "fold (\<lambda>x used. if P x then (if x \<notin> set used then used @ [x] else used) else used) xs (used @ [x])
            = (used @ [x]) @ new"
      "subseq new xs" "distinct new" "set new = {x \<in> set xs. P x} - set (used @ [x])"
      by blast
    have "set (x # new) = {y \<in> set (x # xs). P y} - set used"
      using True new(4) by auto
    moreover have "distinct (x # new)" using new(3,4) by auto
    moreover have "subseq (x # new) (x # xs)" using new(2) by simp
    ultimately show ?thesis
      using True new(1) by (intro exI [of _ "x # new"]) simp
  next
    case False
    from Cons [of used] obtain new where
      new: "fold (\<lambda>x used. if P x then (if x \<notin> set used then used @ [x] else used) else used) xs used
            = used @ new"
      "subseq new xs" "distinct new" "set new = {x \<in> set xs. P x} - set used"
      by blast
    have "set new = {y \<in> set (x # xs). P y} - set used"
      using False new(4) by auto
    moreover have "subseq new (x # xs)" using new(2) by (rule list_emb_Cons)
    ultimately show ?thesis
      using False new(1,3) by (intro exI [of _ new]) auto
  qed
qed

lemma FindUsedColumnNames_parts:
  "\<exists>dsNames.
     FindUsedColumnNames expression branches customColumns dsColumns =
       filter (column_found expression) customColumns
       @ filter (column_found expression) (branchNames branches)
       @ dsNames
     \<and> subseq dsNames dsColumns \<and> distinct dsNames
     \<and> set dsNames =
         {col \<in> set dsColumns. column_found expression col}
         - (set customColumns \<union> set (branchNames branches))"
proof -
  let ?found = "\<lambda>brName. bNameRegex_Index brName ('' '' @ expression @ '' '')"
  let ?used = "filter ?found customColumns @ filter ?found (branchNames branches)"
  have found: "column_found expression = ?found"
    by (rule ext) (simp add: column_found_def)
  have two: "(case branches of
               None \<Rightarrow> fold (\<lambda>brName used. if ?found brName then used @ [brName] else used) customColumns []
             | Some bros \<Rightarrow>
                 fold (\<lambda>brName used. if ?found brName then used @ [brName] else used) bros
                   (fold (\<lambda>brName used. if ?found brName then used @ [brName] else used) customColumns []))
             = ?used"
    by (simp add: fold_emplace_back branchNames_def split: option.split)
  from fold_emplace_back_new [of ?found dsColumns ?used] obtain new where
    new: "fold (\<lambda>x used. if ?found x then (if x \<notin> set used then used @ [x] else used) else used)
            dsColumns ?used = ?used @ new"
    "subseq new dsColumns" "distinct new" "set new = {x \<in> set dsColumns. ?found x} - set ?used"
    by blast
  have "FindUsedColumnNames expression branches customColumns dsColumns = ?used @ new"
    unfolding FindUsedColumnNames_def Let_def two new(1) ..
  moreover have "set new = {col \<in> set dsColumns. ?found col}
         - (set customColumns \<union> set (branchNames branches))"
    using new(4) by auto
  ultimately show ?thesis
    unfolding found using new(2,3) by (intro exI [of _ new]) simp
qed


text \<open>
  Claim C1, as the code has it. The list returned by FindUsedColumnNames is the matching
  custom-column names in their order, then the matching dataset (tree-branch) names in
  their order, then the matching data-source names that are not among them, each once
  and in their order; it contains no duplicate name when the custom-column names and
  the dataset names together contain none.
\<close>

theorem C1_FindUsedColumnNames:
  "\<exists>dsNames.
     FindUsedColumnNames expression branches customColumns dsColumns =
       filter (column_found expression) customColumns
       @ filter (column_found expression) (branchNames branches)
       @ dsNames
     \<and> subseq dsNames dsColumns \<and> distinct dsNames
     \<and> set dsNames =
         {col \<in> set dsColumns. column_found expression col}
         - (set customColumns \<union> set (branchNames branches))
     \<and> (distinct (customColumns @ branchNames branches)
          \<longrightarrow> distinct (FindUsedColumnNames expression branches customColumns dsColumns))"
proof -
  from FindUsedColumnNames_parts [of expression branches customColumns dsColumns]
  obtain dsNames where parts:
    "FindUsedColumnNames expression branches customColumns dsColumns =
       filter (column_found expression) customColumns
       @ filter (column_found expression) (branchNames branches) @ dsNames"
    "subseq dsNames dsColumns" "distinct dsNames"
    "set dsNames = {col \<in> set dsColumns. column_found expression col}
         - (set customColumns \<union> set (branchNames branches))"
    by blast
  have "distinct (FindUsedColumnNames expression branches customColumns dsColumns)"
    if "distinct (customColumns @ branchNames branches)"
    using that parts(3,4) unfolding parts(1) by auto
  with parts show ?thesis by blast
qed

theorem C1_FindUsedColumnNames_witness:
  "distinct (FindUsedColumnNames ''x + y'' (Some [''y'']) [''x''] [''x'', ''y'', ''w''])"
  using C1_FindUsedColumnNames [of "''x + y''" "Some [''y'']" "[''x'']" "[''x'', ''y'', ''w'']"]
  by (auto simp: branchNames_def)

text \<open>
  The claim C1 as the specification states it fails when a custom column and a branch of
  the tree have the same name: the name is returned twice.
\<close>

theorem C1_FindUsedColumnNames_counterexample:
  "FindUsedColumnNames ''x'' (Some [''x'']) [''x''] [] = [''x'', ''x'']
   \<and> \<not> distinct (FindUsedColumnNames ''x'' (Some [''x'']) [''x''] [])"
  by code_simp

subsection \<open>FindUsedColumnNames: isolated tokens\<close>

lemma identifier_not_metachar: "identifier_char c \<Longrightarrow> \<not> pattern_metachar c"
  by (auto simp: identifier_char_def pattern_metachar_def)


















subsection \<open>Numbers in text\<close>




subsection \<open>String streams\<close>

lemma ss_new_of: "ss_new = ss_of []"
  by (simp add: ss_new_def ss_of_def)

lemma ss_write_of: "ss_write (ss_of a) x = ss_of (a @ x)"
  by (simp add: ss_write_def ss_of_def)

lemma ss_set_str_of: "ss_set_str (ss_of a) [] = ss_of []"
  by (simp add: ss_set_str_def ss_of_def)

lemma ss_str_of: "ss_str (ss_of a) = a"
  by (simp add: ss_str_def ss_of_def)

lemmas ss_of_simps = ss_new_of ss_write_of ss_set_str_of ss_str_of

subsection \<open>JitTransformation: the steps\<close>

lemma jit_nsName_eq: "jit_nsName n = ''__tdf_'' @ decimal (unat n)"
  by (simp add: jit_nsName_def ss_of_simps)


lemma gInterpreter_ProcessLine_eq:
  "gInterpreter_ProcessLine ext line s = (code, s') \<longleftrightarrow>
     code = fst (ProcessLine ext line (interpreter s))
     \<and> s' = s\<lparr>interpreter := snd (ProcessLine ext line (interpreter s)),
              submitted := submitted s @ [ProcessLine_request line code]\<rparr>"
  by (auto simp: gInterpreter_ProcessLine_def split: prod.splits)

lemma gInterpreter_Declare_eq:
  "gInterpreter_Declare ext src s = (ok, s') \<longleftrightarrow>
     ok = fst (Declare ext src (interpreter s))
     \<and> s' = s\<lparr>interpreter := snd (Declare ext src (interpreter s)),
              submitted := submitted s @ [Declare_request src ok]\<rparr>"
  by (auto simp: gInterpreter_Declare_def split: prod.splits)

lemma gInterpreter_Calc_eq:
  "gInterpreter_Calc ext line s = ((retVal, code), s') \<longleftrightarrow>
     (retVal, code) = fst (Calc ext line (interpreter s))
     \<and> s' = s\<lparr>interpreter := snd (Calc ext line (interpreter s)),
              submitted := submitted s @ [Calc_request line retVal code]\<rparr>"
  by (auto simp: gInterpreter_Calc_def split: prod.splits)

lemmas gInterpreter_eq = gInterpreter_ProcessLine_eq gInterpreter_Declare_eq gInterpreter_Calc_eq

lemma jit_declare_variables_cases:
  assumes "jit_declare_variables ext nsName usedBranches tmpBookedBranches tree ds ss s = (d, s1)"
  shows "iNs s1 = iNs s \<and>
    ((\<exists>e. d = Inl e \<and> submitted s1 = submitted s)
     \<or> (\<exists>variableDeclarations code. code \<noteq> 0
          \<and> d = Inl (runtime_error
                (''Cannot declare these variables:  '' @ variableDeclarations @ [newline]
                 @ ''Interpreter error code is '' @ decimal code @ ''.''))
          \<and> submitted s1 = submitted s @ [ProcessLine_request (c_str variableDeclarations) code])
     \<or> (\<exists>variableDeclarations p. d = Inr p
          \<and> submitted s1 = submitted s @ [ProcessLine_request (c_str variableDeclarations) 0]))"
proof (cases "jit_declarations ext tmpBookedBranches tree ds usedBranches
         (foldl ss_write ss [''namespace '', nsName, [CHR '' '', CHR ''{'', newline]]) []")
  case (Inl e)
  with assms have "d = Inl e" "s1 = s"
    by (simp_all add: jit_declare_variables_def Let_def)
  then show ?thesis by simp
next
  case (Inr p)
  obtain ss1 types where p: "p = (ss1, types)" by (cases p)
  obtain code s2 where pl: "gInterpreter_ProcessLine ext (c_str (ss_str (ss_write ss1 ''}''))) s
          = (code, s2)"
    by (cases "gInterpreter_ProcessLine ext (c_str (ss_str (ss_write ss1 ''}''))) s")
  then have s2: "iNs s2 = iNs s" "submitted s2 = submitted s
       @ [ProcessLine_request (c_str (ss_str (ss_write ss1 ''}''))) code]"
    by (simp_all add: gInterpreter_eq)
  show ?thesis
  proof (cases "code = 0")
    case True
    with assms Inr p pl have "d = Inr (types, ss_set_str (ss_write ss1 ''}'') [])" "s1 = s2"
      by (simp_all add: jit_declare_variables_def Let_def)
    with s2 True have "iNs s1 = iNs s" and
      "\<exists>variableDeclarations p. d = Inr p
          \<and> submitted s1 = submitted s @ [ProcessLine_request (c_str variableDeclarations) 0]"
      by (simp, intro exI [of _ "ss_str (ss_write ss1 ''}'')"] exI [of _ "(types, ss_set_str (ss_write ss1 ''}'') [])"]) simp
    then show ?thesis by simp
  next
    case False
    with assms Inr p pl have "d = Inl (runtime_error
                (''Cannot declare these variables:  '' @ ss_str (ss_write ss1 ''}'') @ [newline]
                 @ ''Interpreter error code is '' @ decimal code @ ''.''))" "s1 = s2"
      by (simp_all add: jit_declare_variables_def Let_def)
    with s2 False have "iNs s1 = iNs s" and
      "\<exists>variableDeclarations code. code \<noteq> 0
          \<and> d = Inl (runtime_error
                (''Cannot declare these variables:  '' @ variableDeclarations @ [newline]
                 @ ''Interpreter error code is '' @ decimal code @ ''.''))
          \<and> submitted s1 = submitted s @ [ProcessLine_request (c_str variableDeclarations) code]"
      by (simp, intro exI [of _ "ss_str (ss_write ss1 ''}'')"] exI [of _ code]) simp
    then show ?thesis by simp
  qed
qed

lemma jit_check_and_invoke_cases:
  assumes "jit_check_and_invoke ext thisPtr methodName interfaceTypeName name expression
     returnTypeName nsName usedBranches usedBranchesTypes ss s = (r, s')"
  shows "iNs s' = iNs s \<and>
    ((\<exists>fragment. r = Some (Inl (runtime_error
                      (''Cannot interpret this expression: '' @ '' '' @ fragment)))
          \<and> submitted s' = submitted s @ [Declare_request (c_str fragment) False])
     \<or> (\<exists>fragment. r = None
          \<and> submitted s' = submitted s @ [Declare_request (c_str fragment) True])
     \<or> (\<exists>fragment invocation retVal code. r \<noteq> None
          \<and> submitted s' = submitted s
              @ [Declare_request (c_str fragment) True,
                 Calc_request (c_str invocation) retVal code]))"
proof -
  define ss1 where "ss1 = foldl ss_write ss
                 [''namespace '', nsName, ''{ auto res = '', expression,
                  [CHR '';'', CHR ''}'', newline]]"
  obtain ok s1 where d: "gInterpreter_Declare ext (c_str (ss_str ss1)) s = (ok, s1)"
    by (cases "gInterpreter_Declare ext (c_str (ss_str ss1)) s")
  then have s1: "iNs s1 = iNs s"
    "submitted s1 = submitted s @ [Declare_request (c_str (ss_str ss1)) ok]"
    by (simp_all add: gInterpreter_eq)
  have unfold: "jit_check_and_invoke ext thisPtr methodName interfaceTypeName name expression
     returnTypeName nsName usedBranches usedBranchesTypes ss s =
     (if \<not> ok
      then (Some (Inl (runtime_error
                       (''Cannot interpret this expression: '' @ '' '' @ ss_str ss1))), s1)
      else case jit_lambda_parameters usedBranchesTypes usedBranches 0
                  (ss_write (ss_set_str ss1 []) ''[]('') of
             None \<Rightarrow> (None, s1)
           | Some ss2 \<Rightarrow>
               (let ss3 = foldl ss_write
                            (if usedBranchesTypes \<noteq> [] then ss_seekp_cur ss2 (- 2) else ss2)
                            [''){ return '', expression, '';}''];
                    ss4 = jit_invocation ext thisPtr methodName interfaceTypeName name
                            (ss_str ss3) usedBranches returnTypeName ss3;
                    ((retVal, interpErrCode), s2) = gInterpreter_Calc ext (c_str (ss_str ss4)) s1
                in if interpErrCode \<noteq> 0 \<or> retVal = 0
                   then (Some (Inl (runtime_error
                           (''Cannot interpret the invocation to '' @ methodName
                            @ '':  '' @ ss_str ss4
                            @ (if interpErrCode \<noteq> 0
                               then [newline] @ ''Interpreter error code is ''
                                    @ decimal interpErrCode @ ''.''
                               else [])))), s2)
                   else (Some (Inr retVal), s2)))"
    unfolding jit_check_and_invoke_def Let_def ss1_def [symmetric] d prod.case ..
  show ?thesis
  proof (cases ok)
    case False
    with assms unfold have "r = Some (Inl (runtime_error
                      (''Cannot interpret this expression: '' @ '' '' @ ss_str ss1)))" "s' = s1"
      by simp_all
    with s1 False have "iNs s' = iNs s" and "\<exists>fragment. r = Some (Inl (runtime_error
                      (''Cannot interpret this expression: '' @ '' '' @ fragment)))
          \<and> submitted s' = submitted s @ [Declare_request (c_str fragment) False]"
      by (simp, intro exI [of _ "ss_str ss1"]) simp
    then show ?thesis by simp
  next
    case True
    show ?thesis
    proof (cases "jit_lambda_parameters usedBranchesTypes usedBranches 0
                    (ss_write (ss_set_str ss1 []) ''[]('')")
      case None
      with assms unfold True have "r = None" "s' = s1"
        by simp_all
      with s1 True have "iNs s' = iNs s" and "\<exists>fragment. r = None
          \<and> submitted s' = submitted s @ [Declare_request (c_str fragment) True]"
        by (simp, intro exI [of _ "ss_str ss1"]) simp
      then show ?thesis by simp
    next
      case (Some ss2)
      define ss3 where "ss3 = foldl ss_write
                    (if usedBranchesTypes \<noteq> [] then ss_seekp_cur ss2 (- 2) else ss2)
                    [''){ return '', expression, '';}'']"
      define ss4 where "ss4 = jit_invocation ext thisPtr methodName interfaceTypeName name
                    (ss_str ss3) usedBranches returnTypeName ss3"
      obtain retVal code s2 where c:
        "gInterpreter_Calc ext (c_str (ss_str ss4)) s1 = ((retVal, code), s2)"
        by (cases "gInterpreter_Calc ext (c_str (ss_str ss4)) s1") auto
      then have s2: "iNs s2 = iNs s1"
        "submitted s2 = submitted s1 @ [Calc_request (c_str (ss_str ss4)) retVal code]"
        by (simp_all add: gInterpreter_eq)
      from assms have "r \<noteq> None \<and> s' = s2"
        unfolding unfold Let_def ss3_def [symmetric] ss4_def [symmetric] Some option.case c
          prod.case using True by (auto split: if_splits)
      with s1 s2 True have "iNs s' = iNs s" and "\<exists>fragment invocation retVal code. r \<noteq> None
          \<and> submitted s' = submitted s
              @ [Declare_request (c_str fragment) True,
                 Calc_request (c_str invocation) retVal code]"
        by (simp, intro exI [of _ "ss_str ss1"] exI [of _ "ss_str ss4"] exI [of _ retVal]
            exI [of _ code]) simp
      then show ?thesis by simp
    qed
  qed
qed

lemma JitTransformation_no_columns:
  assumes "FindUsedColumnNames expression branches customColumns
             (case ds of Some d \<Rightarrow> GetColumnNames ext d | None \<Rightarrow> []) = []"
  shows "JitTransformation ext thisPtr methodName interfaceTypeName name expression branches
           customColumns tmpBookedBranches tree returnTypeName ds s =
         jit_check_and_invoke ext thisPtr methodName interfaceTypeName name expression
           returnTypeName (jit_nsName (iNs s)) [] [] ss_new (s\<lparr>iNs := iNs s + 1\<rparr>)"
  using assms by (simp add: JitTransformation_def Let_def)

lemma JitTransformation_columns:
  assumes "FindUsedColumnNames expression branches customColumns
             (case ds of Some d \<Rightarrow> GetColumnNames ext d | None \<Rightarrow> []) = usedBranches"
    and "usedBranches \<noteq> []"
    and "jit_declare_variables ext (jit_nsName (iNs s)) usedBranches tmpBookedBranches tree ds
           ss_new (s\<lparr>iNs := iNs s + 1\<rparr>) = (d, s1)"
  shows "JitTransformation ext thisPtr methodName interfaceTypeName name expression branches
           customColumns tmpBookedBranches tree returnTypeName ds s =
         (case d of
            Inl e \<Rightarrow> (Some (Inl e), s1)
          | Inr (usedBranchesTypes, ss) \<Rightarrow>
              jit_check_and_invoke ext thisPtr methodName interfaceTypeName name expression
                returnTypeName (jit_nsName (iNs s)) usedBranches usedBranchesTypes ss s1)"
  using assms by (simp add: JitTransformation_def Let_def split: sum.split prod.split)

lemma failures_reported_Nil: "failures_reported r []"
  by (simp add: failures_reported_def)

lemma failures_reported_Cons:
  assumes "failures_reported r new" and "\<not> declaration_failed q" and "\<not> is_Calc_request q"
  shows "failures_reported r (q # new)"
  using assms unfolding failures_reported_def by auto

lemma failures_reported_ProcessLine:
  "failures_reported
     (Some (Inl (runtime_error
        (''Cannot declare these variables:  '' @ variableDeclarations @ [newline]
         @ ''Interpreter error code is '' @ decimal code @ ''.''))))
     [ProcessLine_request (c_str variableDeclarations) code]"
proof -
  have "sublist variableDeclarations
     (''Cannot declare these variables:  '' @ variableDeclarations @ [newline]
         @ ''Interpreter error code is '' @ decimal code @ ''.'')"
    unfolding sublist_def by blast
  then show ?thesis
    unfolding failures_reported_def by auto
qed

lemma failures_reported_Declare:
  "failures_reported
     (Some (Inl (runtime_error (''Cannot interpret this expression: '' @ '' '' @ fragment))))
     [Declare_request (c_str fragment) False]"
proof -
  have "sublist fragment (''Cannot interpret this expression: '' @ '' '' @ fragment)"
    unfolding sublist_def by (intro exI [of _ "''Cannot interpret this expression:  ''"] exI [of _ "[]"]) simp
  then show ?thesis
    unfolding failures_reported_def by auto
qed

lemma jit_check_and_invoke_reports:
  assumes "jit_check_and_invoke ext thisPtr methodName interfaceTypeName name expression
     returnTypeName nsName usedBranches usedBranchesTypes ss s = (r, s')"
  shows "\<exists>new. submitted s' = submitted s @ new \<and> failures_reported r new"
proof -
  from jit_check_and_invoke_cases [OF assms] consider
    fragment where "r = Some (Inl (runtime_error
                      (''Cannot interpret this expression: '' @ '' '' @ fragment)))"
          "submitted s' = submitted s @ [Declare_request (c_str fragment) False]"
    | fragment where "submitted s' = submitted s @ [Declare_request (c_str fragment) True]"
    | fragment invocation retVal code where "submitted s' = submitted s
              @ [Declare_request (c_str fragment) True,
                 Calc_request (c_str invocation) retVal code]"
    by blast
  then show ?thesis
  proof cases
    case 1
    then show ?thesis using failures_reported_Declare by blast
  next
    case 2
    moreover have "failures_reported r [Declare_request (c_str fragment) True]"
      by (simp add: failures_reported_def)
    ultimately show ?thesis by blast
  next
    case 3
    moreover have "failures_reported r [Declare_request (c_str fragment) True,
                 Calc_request (c_str invocation) retVal code]"
      by (simp add: failures_reported_def)
    ultimately show ?thesis by blast
  qed
qed

lemma JitTransformation_reports:
  assumes "JitTransformation ext thisPtr methodName interfaceTypeName name expression branches
             customColumns tmpBookedBranches tree returnTypeName ds s = (r, s')"
  shows "\<exists>new. submitted s' = submitted s @ new \<and> failures_reported r new"
proof -
  define usedBranches where "usedBranches = FindUsedColumnNames expression branches customColumns
             (case ds of Some d \<Rightarrow> GetColumnNames ext d | None \<Rightarrow> [])"
  show ?thesis
  proof (cases "usedBranches = []")
    case True
    with assms have "jit_check_and_invoke ext thisPtr methodName interfaceTypeName name expression
           returnTypeName (jit_nsName (iNs s)) [] [] ss_new (s\<lparr>iNs := iNs s + 1\<rparr>) = (r, s')"
      by (simp add: JitTransformation_no_columns usedBranches_def)
    from jit_check_and_invoke_reports [OF this] show ?thesis by simp
  next
    case False
    obtain d s1 where d: "jit_declare_variables ext (jit_nsName (iNs s)) usedBranches
           tmpBookedBranches tree ds ss_new (s\<lparr>iNs := iNs s + 1\<rparr>) = (d, s1)"
      by (cases "jit_declare_variables ext (jit_nsName (iNs s)) usedBranches
           tmpBookedBranches tree ds ss_new (s\<lparr>iNs := iNs s + 1\<rparr>)")
    note jt = JitTransformation_columns [OF usedBranches_def [symmetric] False d,
        of thisPtr methodName interfaceTypeName name returnTypeName]
    from jit_declare_variables_cases [OF d] consider
      e where "d = Inl e" "submitted s1 = submitted s"
      | variableDeclarations code where "code \<noteq> 0"
          "d = Inl (runtime_error
                (''Cannot declare these variables:  '' @ variableDeclarations @ [newline]
                 @ ''Interpreter error code is '' @ decimal code @ ''.''))"
          "submitted s1 = submitted s @ [ProcessLine_request (c_str variableDeclarations) code]"
      | variableDeclarations p where "d = Inr p"
          "submitted s1 = submitted s @ [ProcessLine_request (c_str variableDeclarations) 0]"
      by auto
    then show ?thesis
    proof cases
      case 1
      with assms jt have "r = Some (Inl e)" "s' = s1" by simp_all
      with 1 failures_reported_Nil [of r] show ?thesis by simp
    next
      case 2
      with assms jt have "r = Some (Inl (runtime_error
                (''Cannot declare these variables:  '' @ variableDeclarations @ [newline]
                 @ ''Interpreter error code is '' @ decimal code @ ''.'')))" "s' = s1"
        by simp_all
      with 2 failures_reported_ProcessLine [of variableDeclarations code] show ?thesis by simp
    next
      case 3
      with assms jt have "jit_check_and_invoke ext thisPtr methodName interfaceTypeName name
                expression returnTypeName (jit_nsName (iNs s)) usedBranches (fst p) (snd p) s1
              = (r, s')"
        by (simp add: case_prod_beta)
      from jit_check_and_invoke_reports [OF this] obtain new where
        new: "submitted s' = submitted s1 @ new" "failures_reported r new" by blast
      have "failures_reported r (ProcessLine_request (c_str variableDeclarations) 0 # new)"
        using new(2) by (rule failures_reported_Cons) simp_all
      with new(1) 3(2) show ?thesis by simp
    qed
  qed
qed


subsection \<open>JitTransformation: failures of the declarations\<close>

lemma FindUsedColumnNames_no_columns: "FindUsedColumnNames expression None [] [] = []"
  by (simp add: FindUsedColumnNames_def)

lemma decimal_0: "decimal 0 = ''0''"
  by code_simp


lemma JitTransformation_refused_example: 
  "JitTransformation (example_externals\<lparr>Declare := (\<lambda>src i. (False, i))\<rparr>) 1 ''Filter''
     ''ROOT::Detail::TDF::TLoopManager'' [] ''1 +'' None [] Map.empty ()
     ''ROOT::Detail::TDF::TFilterBase'' None \<lparr>iNs = 0, interpreter = (), submitted = []\<rparr>
   = (Some (Inl (runtime_error
              (''Cannot interpret this expression:  namespace __tdf_0{ auto res = 1 +;}''
               @ [newline]))),
      \<lparr>iNs = 1, interpreter = (),
       submitted = [Declare_request (''namespace __tdf_0{ auto res = 1 +;}'' @ [newline]) False]\<rparr>)"
  by (simp add: JitTransformation_no_columns FindUsedColumnNames_no_columns
        jit_check_and_invoke_def Let_def ss_of_simps jit_nsName_eq decimal_0
        gInterpreter_Declare_def example_externals_def c_str_def newline_def)


text \<open>
  Claim C6. For every invocation of JitTransformation, with its outcome \<open>r\<close> and the
  requests \<open>new\<close> that it submitted to the interpreter: when the declaration of the
  placeholders (\<^verbatim>\<open>ProcessLine\<close>) or the declaration of the expression on its own
  (\<^verbatim>\<open>Declare\<close>) was refused, the invocation threw an error whose message includes the
  source fragment that was generated for the request, and no call that extends the graph
  (\<^verbatim>\<open>Calc\<close>) was submitted.
\<close>

theorem C6_JitTransformation_failures:
  assumes "JitTransformation ext thisPtr methodName interfaceTypeName name expression branches
             customColumns tmpBookedBranches tree returnTypeName ds s = (r, s')"
  shows "\<exists>new. submitted s' = submitted s @ new \<and>
           (\<forall>q \<in> set new. declaration_failed q \<longrightarrow>
              (\<exists>msg fragment. r = Some (Inl (runtime_error msg))
                 \<and> request_text q = c_str fragment \<and> sublist fragment msg)
              \<and> (\<forall>q' \<in> set new. \<not> is_Calc_request q'))"
  using JitTransformation_reports [OF assms] unfolding failures_reported_def .

theorem C6_JitTransformation_failures_witness:
  "\<exists>msg fragment.
     fst (JitTransformation (example_externals\<lparr>Declare := (\<lambda>src i. (False, i))\<rparr>) 1 ''Filter''
       ''ROOT::Detail::TDF::TLoopManager'' [] ''1 +'' None [] Map.empty ()
       ''ROOT::Detail::TDF::TFilterBase'' None \<lparr>iNs = 0, interpreter = (), submitted = []\<rparr>)
       = Some (Inl (runtime_error msg))
     \<and> ''namespace __tdf_0{ auto res = 1 +;}'' @ [newline] = c_str fragment
     \<and> sublist fragment msg"
proof -
  from C6_JitTransformation_failures [OF JitTransformation_refused_example] obtain new where
    new: "[Declare_request (''namespace __tdf_0{ auto res = 1 +;}'' @ [newline]) False] = new"
    and reported: "\<forall>q \<in> set new. declaration_failed q \<longrightarrow>
              (\<exists>msg fragment.
                 Some (Inl (runtime_error
                   (''Cannot interpret this expression:  namespace __tdf_0{ auto res = 1 +;}''
                    @ [newline]))) = Some (Inl (runtime_error msg))
                 \<and> request_text q = c_str fragment \<and> sublist fragment msg)
              \<and> (\<forall>q' \<in> set new. \<not> is_Calc_request q')"
    by auto
  from reported new [symmetric] obtain msg fragment where
    "Some (Inl (runtime_error
        (''Cannot interpret this expression:  namespace __tdf_0{ auto res = 1 +;}''
         @ [newline]))) = Some (Inl (runtime_error msg))"
    "''namespace __tdf_0{ auto res = 1 +;}'' @ [newline] = c_str fragment"
    "sublist fragment msg"
    by auto
  then show ?thesis
    unfolding JitTransformation_refused_example fst_conv by blast
qed

subsection \<open>JitTransformation: the names of the scopes\<close>








subsection \<open>JitTransformation: an expression that uses no column\<close>







lemma decimal_1: "decimal (Suc 0) = ''1''"
  by code_simp




subsection \<open>JitBuildAndBook\<close>

lemma JitBuildAndBook_tmpBranchPtrs_returns:
  assumes "length bl = n" and "n < 2 ^ 32" and "unat i \<le> n" and "length done = unat i"
  shows "JitBuildAndBook_tmpBranchPtrs customColumns bl n i (done @ replicate (n - unat i) None)
         = Some (done @ map customColumns (drop (unat i) bl))"
  using assms
proof (induction "n - unat i" arbitrary: i "done")
  case 0
  then have "\<not> unat i < n" by simp
  with 0 show ?case
    by (subst JitBuildAndBook_tmpBranchPtrs.simps) simp
next
  case (Suc k)
  then have lt: "unat i < n" by simp
  with Suc.prems have step: "unat (i + 1) = Suc (unat i)"
    by (simp add: unat_succ_32)
  have rep: "replicate (n - unat i) None = None # replicate (n - unat (i + 1)) (None :: 'a option)"
    using lt step by (simp add: Suc_diff_Suc replicate_Suc [symmetric] del: replicate_Suc)
  have upd: "(case customColumns (bl ! unat i) of
                None \<Rightarrow> done @ replicate (n - unat i) None
              | Some tmpBranch \<Rightarrow> (done @ replicate (n - unat i) None)[unat i := Some tmpBranch])
             = (done @ [customColumns (bl ! unat i)]) @ replicate (n - unat (i + 1)) None"
    unfolding rep using Suc.prems(4) by (simp add: list_update_append split: option.split)
  have "JitBuildAndBook_tmpBranchPtrs customColumns bl n (i + 1)
          ((done @ [customColumns (bl ! unat i)]) @ replicate (n - unat (i + 1)) None)
        = Some ((done @ [customColumns (bl ! unat i)]) @ map customColumns (drop (unat (i + 1)) bl))"
    using Suc.hyps(2) Suc.prems lt step by (intro Suc.hyps(1)) simp_all
  moreover have "drop (unat i) bl = bl ! unat i # drop (Suc (unat i)) bl"
    using lt Suc.prems(1) by (simp add: Cons_nth_drop_Suc)
  ultimately show ?case
    using lt step by (subst JitBuildAndBook_tmpBranchPtrs.simps) (simp add: upd)
qed

lemma JitBuildAndBook_tmpBranchPtrs_bound:
  assumes "JitBuildAndBook_tmpBranchPtrs customColumns bl n i tmpBranchPtrs = Some ptrs"
  shows "n < 2 ^ 32"
proof (rule JitBuildAndBook_tmpBranchPtrs.raw_induct
    [where P = "\<lambda>_ _ n _ _ _. n < 2 ^ 32", OF _ assms])
  fix loop :: "(string \<rightharpoonup> 'a) \<Rightarrow> string list \<Rightarrow> nat \<Rightarrow> 32 word \<Rightarrow> 'a option list \<Rightarrow> 'a option list option"
  fix c :: "string \<rightharpoonup> 'a" and bl :: "string list" and n :: nat and i :: "32 word"
    and p y :: "'a option list"
  assume IH: "\<And>c bl n i p y. loop c bl n i p = Some y \<Longrightarrow> n < 2 ^ 32"
    and run: "(if unat i < n
               then loop c bl n (i + 1)
                      (case c (bl ! unat i) of None \<Rightarrow> p | Some tmpBranch \<Rightarrow> p[unat i := Some tmpBranch])
               else Some p) = Some y"
  show "n < 2 ^ 32"
  proof (cases "unat i < n")
    case True
    with run IH show ?thesis by simp
  next
    case False
    have "unat i < 2 ^ LENGTH(32)" by (rule unsigned_less)
    with False show ?thesis by simp
  qed
qed

lemma JitBuildAndBook_columnTypeNames_returns:
  assumes "n < 2 ^ 32" and "unat i \<le> n"
  shows "\<exists>r. JitBuildAndBook_columnTypeNames ext bl tree tmpBranchPtrs ds n i columnTypeNames
              = Some r
           \<and> ((\<exists>j. unat i \<le> j \<and> j < n
                  \<and> ColumnName2ColumnTypeName ext (bl ! j) tree (tmpBranchPtrs ! j) ds = Inr [])
                \<longrightarrow> (\<exists>e. r = Inl e))"
  using assms
proof (induction "n - unat i" arbitrary: i columnTypeNames)
  case 0
  then have "\<not> unat i < n" by simp
  then show ?case
    by (subst JitBuildAndBook_columnTypeNames.simps) auto
next
  case (Suc k)
  then have lt: "unat i < n" by simp
  with Suc.prems have step: "unat (i + 1) = Suc (unat i)"
    by (simp add: unat_succ_32)
  show ?case
  proof (cases "ColumnName2ColumnTypeName ext (bl ! unat i) tree (tmpBranchPtrs ! unat i) ds")
    case (Inl e)
    with lt show ?thesis
      by (subst JitBuildAndBook_columnTypeNames.simps) simp
  next
    case (Inr columnTypeName)
    show ?thesis
    proof (cases "columnTypeName = []")
      case True
      with Inr lt show ?thesis
        by (subst JitBuildAndBook_columnTypeNames.simps) simp
    next
      case False
      from Suc.hyps(2) Suc.prems lt step
      have "\<exists>r. JitBuildAndBook_columnTypeNames ext bl tree tmpBranchPtrs ds n (i + 1)
                   (columnTypeNames[unat i := columnTypeName]) = Some r
           \<and> ((\<exists>j. unat (i + 1) \<le> j \<and> j < n
                  \<and> ColumnName2ColumnTypeName ext (bl ! j) tree (tmpBranchPtrs ! j) ds = Inr [])
                \<longrightarrow> (\<exists>e. r = Inl e))"
        by (intro Suc.hyps(1)) simp_all
      then obtain r where r: "JitBuildAndBook_columnTypeNames ext bl tree tmpBranchPtrs ds n (i + 1)
                   (columnTypeNames[unat i := columnTypeName]) = Some r"
        and fails: "(\<exists>j. Suc (unat i) \<le> j \<and> j < n
                  \<and> ColumnName2ColumnTypeName ext (bl ! j) tree (tmpBranchPtrs ! j) ds = Inr [])
                \<longrightarrow> (\<exists>e. r = Inl e)"
        unfolding step by blast
      have "(\<exists>j. unat i \<le> j \<and> j < n
                  \<and> ColumnName2ColumnTypeName ext (bl ! j) tree (tmpBranchPtrs ! j) ds = Inr [])
                \<longrightarrow> (\<exists>e. r = Inl e)"
      proof
        assume "\<exists>j. unat i \<le> j \<and> j < n
                  \<and> ColumnName2ColumnTypeName ext (bl ! j) tree (tmpBranchPtrs ! j) ds = Inr []"
        then obtain j where j: "unat i \<le> j" "j < n"
          "ColumnName2ColumnTypeName ext (bl ! j) tree (tmpBranchPtrs ! j) ds = Inr []"
          by blast
        with Inr False have "j \<noteq> unat i" by auto
        with j(1) have "Suc (unat i) \<le> j" by simp
        with j fails show "\<exists>e. r = Inl e" by blast
      qed
      moreover have "JitBuildAndBook_columnTypeNames ext bl tree tmpBranchPtrs ds n i
                       columnTypeNames = Some r"
        using lt Inr False r by (subst JitBuildAndBook_columnTypeNames.simps) simp
      ultimately show ?thesis by blast
    qed
  qed
qed

lemma JitBuildAndBook_columnTypeNames_resolved:
  assumes "n < 2 ^ 32" and "unat i \<le> n" and "length columnTypeNames = n" and "length types = n"
    and "\<And>j. j < n \<Longrightarrow>
           ColumnName2ColumnTypeName ext (bl ! j) tree (tmpBranchPtrs ! j) ds = Inr (types ! j)
           \<and> types ! j \<noteq> []"
  shows "JitBuildAndBook_columnTypeNames ext bl tree tmpBranchPtrs ds n i columnTypeNames
         = Some (Inr (take (unat i) columnTypeNames @ drop (unat i) types))"
  using assms(1-4)
proof (induction "n - unat i" arbitrary: i columnTypeNames)
  case 0
  then have "\<not> unat i < n" by simp
  with 0 show ?case
    by (subst JitBuildAndBook_columnTypeNames.simps) simp
next
  case (Suc k)
  then have lt: "unat i < n" by simp
  with Suc.prems have step: "unat (i + 1) = Suc (unat i)"
    by (simp add: unat_succ_32)
  let ?names = "columnTypeNames[unat i := types ! unat i]"
  have "JitBuildAndBook_columnTypeNames ext bl tree tmpBranchPtrs ds n (i + 1) ?names
        = Some (Inr (take (unat (i + 1)) ?names @ drop (unat (i + 1)) types))"
    using Suc.hyps(2) Suc.prems lt step by (intro Suc.hyps(1)) simp_all
  moreover have "take (Suc (unat i)) ?names = take (unat i) columnTypeNames @ [types ! unat i]"
    using lt Suc.prems(3) by (simp add: take_Suc_conv_app_nth)
  moreover have "drop (unat i) types = types ! unat i # drop (Suc (unat i)) types"
    using lt Suc.prems(4) by (simp add: Cons_nth_drop_Suc)
  ultimately show ?case
    using lt step assms(5) [OF lt]
    by (subst JitBuildAndBook_columnTypeNames.simps) simp
qed

lemma JitBuildAndBook_names_further:
  assumes "length bl < 2 ^ 32" and "unat i \<le> length bl" and "i \<noteq> 0"
  shows "JitBuildAndBook_names bl i createAction_str
         = Some (createAction_str
                 @ concat (map (\<lambda>c. '', '' @ [dquote] @ c @ [dquote]) (drop (unat i) bl)))"
  using assms
proof (induction "length bl - unat i" arbitrary: i createAction_str)
  case 0
  then have "\<not> unat i < length bl" by simp
  with 0 show ?case
    by (subst JitBuildAndBook_names.simps) simp
next
  case (Suc k)
  then have lt: "unat i < length bl" by simp
  with Suc.prems have step: "unat (i + 1) = Suc (unat i)"
    by (simp add: unat_succ_32)
  then have "unat (i + 1) \<noteq> 0" by simp
  then have next_pos: "i + 1 \<noteq> 0" by auto
  have "JitBuildAndBook_names bl (i + 1) (createAction_str @ '', '' @ [dquote] @ bl ! unat i @ [dquote])
        = Some ((createAction_str @ '', '' @ [dquote] @ bl ! unat i @ [dquote])
                @ concat (map (\<lambda>c. '', '' @ [dquote] @ c @ [dquote]) (drop (unat (i + 1)) bl)))"
    using Suc.hyps(2) Suc.prems lt step next_pos by (intro Suc.hyps(1)) simp_all
  moreover have "drop (unat i) bl = bl ! unat i # drop (Suc (unat i)) bl"
    using lt by (simp add: Cons_nth_drop_Suc)
  ultimately show ?case
    using lt step Suc.prems(3) by (subst JitBuildAndBook_names.simps) simp
qed

lemma comma_separated_Cons:
  "comma_separated (x # xs) = x @ concat (map (\<lambda>c. '', '' @ c) xs)"
  by (induction xs arbitrary: x) simp_all

lemma JitBuildAndBook_names_all:
  assumes "length bl < 2 ^ 32"
  shows "JitBuildAndBook_names bl 0 createAction_str
         = Some (createAction_str @ comma_separated (map (\<lambda>c. [dquote] @ c @ [dquote]) bl))"
proof (cases bl)
  case Nil
  then show ?thesis
    by (subst JitBuildAndBook_names.simps) simp
next
  case (Cons x xs)
  have one: "unat (1 :: 32 word) = 1" by simp
  have "JitBuildAndBook_names bl 1 (createAction_str @ [dquote] @ x @ [dquote])
        = Some ((createAction_str @ [dquote] @ x @ [dquote])
                @ concat (map (\<lambda>c. '', '' @ [dquote] @ c @ [dquote]) (drop (unat (1 :: 32 word)) bl)))"
    using assms Cons by (intro JitBuildAndBook_names_further) simp_all
  then have "JitBuildAndBook_names bl 0 createAction_str
        = Some ((createAction_str @ [dquote] @ x @ [dquote])
                @ concat (map (\<lambda>c. '', '' @ [dquote] @ c @ [dquote]) xs))"
    using Cons by (subst JitBuildAndBook_names.simps) (simp add: one)
  then show ?thesis
    using Cons by (simp add: comma_separated_Cons comp_def)
qed

lemma foldl_column_types:
  "foldl (\<lambda>str colType. str @ '', '' @ colType) str0 columnTypeNames
   = str0 @ concat (map (\<lambda>colType. '', '' @ colType) columnTypeNames)"
  by (induction columnTypeNames arbitrary: str0) simp_all

lemma foldl_column_types_simp:
  "foldl (\<lambda>str colType. str @ CHR '','' # CHR '' '' # colType) str0 columnTypeNames
   = str0 @ concat (map (\<lambda>colType. '', '' @ colType) columnTypeNames)"
  using foldl_column_types [of str0 columnTypeNames] by simp

lemma JitBuildAndBook_tmpBranchPtrs_all:
  assumes "length bl < 2 ^ 32"
  shows "JitBuildAndBook_tmpBranchPtrs customColumns bl (length bl) 0
           (replicate (length bl) None) = Some (map customColumns bl)"
  using JitBuildAndBook_tmpBranchPtrs_returns [of bl "length bl" 0 "[]" customColumns] assms
  by simp

text \<open>
  Claim C5, as the code has it. For every list of fewer than \<open>2 ^ 32\<close> input columns:
  when the type of every column resolves to a non-empty name and the class names of the
  result type and of the action type are found, JitBuildAndBook returns the call
  expression that instantiates \<^verbatim>\<open>CallBuildAndBook\<close> with the action type followed by
  the type of each input column in list order, and passes the previous node through a
  pointer cast to its type, the quoted column names in order, the slot count, and the
  result storage through a pointer cast to the result type; it throws when the type of
  a column is the empty name or one of the two type identities has no class.
\<close>

theorem C5_JitBuildAndBook:
  assumes "length bl < 2 ^ 32"
  shows "(map (\<lambda>c. ColumnName2ColumnTypeName ext c tree (customColumns c) ds) bl
            = map Inr columnTypeNames
          \<and> [] \<notin> set columnTypeNames
          \<and> GetClass ext art = Some actionResultTypeName
          \<and> GetClass ext at = Some actionTypeName
          \<longrightarrow> JitBuildAndBook ext bl prevNodeTypename prevNode art at rOnHeap tree nSlots
                customColumns ds
              = Some (Inr (''ROOT::Internal::TDF::CallBuildAndBook<'' @ actionTypeName
                   @ concat (map (\<lambda>colType. '', '' @ colType) columnTypeNames)
                   @ ''>(*reinterpret_cast<'' @ prevNodeTypename @ ''*>(''
                   @ print_pointer ext prevNode @ ''), {''
                   @ comma_separated (map (\<lambda>c. [dquote] @ c @ [dquote]) bl)
                   @ ''}, '' @ decimal (unat nSlots)
                   @ '', reinterpret_cast<'' @ actionResultTypeName @ ''*>(''
                   @ print_pointer ext rOnHeap @ ''));'')))
       \<and> ((\<exists>c \<in> set bl. ColumnName2ColumnTypeName ext c tree (customColumns c) ds = Inr [])
            \<or> GetClass ext art = None \<or> GetClass ext at = None
          \<longrightarrow> (\<exists>e. JitBuildAndBook ext bl prevNodeTypename prevNode art at rOnHeap tree nSlots
                     customColumns ds = Some (Inl e)))"
proof (intro conjI impI)
  note ptrs = JitBuildAndBook_tmpBranchPtrs_all [OF assms, of customColumns]
  note names = JitBuildAndBook_names_all [OF assms]
  {
    assume resolved: "map (\<lambda>c. ColumnName2ColumnTypeName ext c tree (customColumns c) ds) bl
            = map Inr columnTypeNames
          \<and> [] \<notin> set columnTypeNames
          \<and> GetClass ext art = Some actionResultTypeName
          \<and> GetClass ext at = Some actionTypeName"
    then have len: "length columnTypeNames = length bl"
      by (metis length_map)
    have each: "ColumnName2ColumnTypeName ext (bl ! j) tree (map customColumns bl ! j) ds
                  = Inr (columnTypeNames ! j) \<and> columnTypeNames ! j \<noteq> []" if "j < length bl" for j
    proof -
      from resolved have "map (\<lambda>c. ColumnName2ColumnTypeName ext c tree (customColumns c) ds) bl ! j
            = map Inr columnTypeNames ! j" by simp
      with that len have "ColumnName2ColumnTypeName ext (bl ! j) tree (customColumns (bl ! j)) ds
            = Inr (columnTypeNames ! j)" by simp
      moreover from resolved that len have "columnTypeNames ! j \<noteq> []"
        by (metis nth_mem)
      ultimately show ?thesis using that by simp
    qed
    have types: "JitBuildAndBook_columnTypeNames ext bl tree (map customColumns bl) ds (length bl) 0
                   (replicate (length bl) []) = Some (Inr columnTypeNames)"
      using JitBuildAndBook_columnTypeNames_resolved
        [of "length bl" 0 "replicate (length bl) []" columnTypeNames ext bl tree
            "map customColumns bl" ds] assms len each
      by simp
    show "JitBuildAndBook ext bl prevNodeTypename prevNode art at rOnHeap tree nSlots
                customColumns ds
              = Some (Inr (''ROOT::Internal::TDF::CallBuildAndBook<'' @ actionTypeName
                   @ concat (map (\<lambda>colType. '', '' @ colType) columnTypeNames)
                   @ ''>(*reinterpret_cast<'' @ prevNodeTypename @ ''*>(''
                   @ print_pointer ext prevNode @ ''), {''
                   @ comma_separated (map (\<lambda>c. [dquote] @ c @ [dquote]) bl)
                   @ ''}, '' @ decimal (unat nSlots)
                   @ '', reinterpret_cast<'' @ actionResultTypeName @ ''*>(''
                   @ print_pointer ext rOnHeap @ ''));''))"
      using resolved
      by (simp add: JitBuildAndBook_def Let_def ptrs types names foldl_column_types_simp)
  }
  {
    assume fails: "(\<exists>c \<in> set bl. ColumnName2ColumnTypeName ext c tree (customColumns c) ds = Inr [])
            \<or> GetClass ext art = None \<or> GetClass ext at = None"
    from JitBuildAndBook_columnTypeNames_returns
      [of "length bl" 0 ext bl tree "map customColumns bl" ds "replicate (length bl) []"] assms
    obtain r where r: "JitBuildAndBook_columnTypeNames ext bl tree (map customColumns bl) ds
                         (length bl) 0 (replicate (length bl) []) = Some r"
      and empty: "(\<exists>j. j < length bl
                  \<and> ColumnName2ColumnTypeName ext (bl ! j) tree (map customColumns bl ! j) ds = Inr [])
                \<longrightarrow> (\<exists>e. r = Inl e)"
      by auto
    show "\<exists>e. JitBuildAndBook ext bl prevNodeTypename prevNode art at rOnHeap tree nSlots
                     customColumns ds = Some (Inl e)"
    proof (cases r)
      case (Inl e)
      with r show ?thesis
        by (simp add: JitBuildAndBook_def Let_def ptrs)
    next
      case (Inr types)
      have "\<not> (\<exists>c \<in> set bl. ColumnName2ColumnTypeName ext c tree (customColumns c) ds = Inr [])"
      proof
        assume "\<exists>c \<in> set bl. ColumnName2ColumnTypeName ext c tree (customColumns c) ds = Inr []"
        then obtain j where "j < length bl"
          "ColumnName2ColumnTypeName ext (bl ! j) tree (customColumns (bl ! j)) ds = Inr []"
          by (auto simp: in_set_conv_nth)
        then have "\<exists>j. j < length bl
                  \<and> ColumnName2ColumnTypeName ext (bl ! j) tree (map customColumns bl ! j) ds = Inr []"
          by (intro exI [of _ j]) simp
        with empty Inr show False by auto
      qed
      with fails have "GetClass ext art = None \<or> GetClass ext at = None" by simp
      with r Inr show ?thesis
        by (cases "GetClass ext art") (auto simp: JitBuildAndBook_def Let_def ptrs)
    qed
  }
qed

lemma decimal_4: "decimal 4 = ''4''"
  by code_simp

lemma decimal_2: "decimal 2 = ''2''"
  by code_simp

theorem C5_JitBuildAndBook_witness:
  "JitBuildAndBook example_externals [''pt'', ''eta''] ''FilterNode_7'' 1 ''TH1D'' ''HistoAction''
     2 () 4 Map.empty None
   = Some (Inr (''ROOT::Internal::TDF::CallBuildAndBook<HistoAction, double, double>''
        @ ''(*reinterpret_cast<FilterNode_7*>(0x1), {'' @ [dquote] @ ''pt'' @ [dquote] @ '', ''
        @ [dquote] @ ''eta'' @ [dquote] @ ''}, 4, reinterpret_cast<TH1D*>(0x2));''))"
proof -
  have "length [''pt'', ''eta''] < (2 :: nat) ^ 32"
    by simp
  from C5_JitBuildAndBook [OF this, where ext = example_externals and tree = "()"
      and customColumns = Map.empty and ds = None
      and columnTypeNames = "[''double'', ''double'']" and art = "''TH1D''"
      and actionResultTypeName = "''TH1D''" and at = "''HistoAction''"
      and actionTypeName = "''HistoAction''" and prevNodeTypename = "''FilterNode_7''"
      and prevNode = 1 and rOnHeap = 2 and nSlots = 4, THEN conjunct1]
  show ?thesis
    by (simp add: example_externals_def decimal_1 decimal_2 decimal_4)
qed

text \<open>
  The claim C5 as the specification states it, for every list of input columns, fails on
  a list of \<open>2 ^ 32\<close> columns: the unsigned index of the first loop never reaches the
  size, and the function does not return.
\<close>

theorem C5_JitBuildAndBook_counterexample:
  "JitBuildAndBook example_externals (replicate 4294967296 ''pt'') ''FilterNode_7'' 1 ''TH1D''
     ''HistoAction'' 2 () 4 Map.empty None = None"
proof (cases "JitBuildAndBook_tmpBranchPtrs (Map.empty :: string \<rightharpoonup> unit)
                (replicate 4294967296 ''pt'') 4294967296 0 (replicate 4294967296 None)")
  case None
  then show ?thesis
    by (simp add: JitBuildAndBook_def Let_def)
next
  case (Some ptrs)
  from JitBuildAndBook_tmpBranchPtrs_bound [OF this] show ?thesis by simp
qed

subsection \<open>AtLeastOneEmptyString\<close>

text \<open>
  Claim C10. For every list of strings, AtLeastOneEmptyString returns true if and only
  if at least one element of the list is the empty string; on the empty list it
  returns false.
\<close>

theorem C10_AtLeastOneEmptyString:
  "(AtLeastOneEmptyString strings \<longleftrightarrow> [] \<in> set strings)
   \<and> AtLeastOneEmptyString [] = False"
  by (induction strings) auto

subsection \<open>FindUndefinedDSColumns\<close>

lemma FindUndefinedDSColumns_loop_returns:
  assumes "length requestedCols = n" and "length mustBeDefined = n"
    and "n < 2 ^ 32" and "unat i \<le> n"
  shows "FindUndefinedDSColumns_loop requestedCols definedCols n i mustBeDefined =
         Some (take (unat i) mustBeDefined
               @ map (\<lambda>c. c \<notin> set definedCols) (drop (unat i) requestedCols))"
  using assms
proof (induction "n - unat i" arbitrary: i mustBeDefined)
  case 0
  then have "\<not> unat i < n" by simp
  with 0 show ?case
    by (subst FindUndefinedDSColumns_loop.simps) simp
next
  case (Suc k)
  then have lt: "unat i < n" by simp
  with Suc.prems have step: "unat (i + 1) = Suc (unat i)"
    by (simp add: unat_succ_32)
  let ?m = "mustBeDefined[unat i := (requestedCols ! unat i \<notin> set definedCols)]"
  have "FindUndefinedDSColumns_loop requestedCols definedCols n (i + 1) ?m =
        Some (take (unat (i + 1)) ?m
              @ map (\<lambda>c. c \<notin> set definedCols) (drop (unat (i + 1)) requestedCols))"
    using Suc.hyps(2) Suc.prems lt step
    by (intro Suc.hyps(1)) simp_all
  moreover have "take (Suc (unat i)) ?m =
        take (unat i) mustBeDefined @ [requestedCols ! unat i \<notin> set definedCols]"
    using lt Suc.prems(2) by (simp add: take_Suc_conv_app_nth)
  moreover have "drop (unat i) requestedCols =
        requestedCols ! unat i # drop (Suc (unat i)) requestedCols"
    using lt Suc.prems(1) by (simp add: Cons_nth_drop_Suc)
  ultimately show ?case
    using lt step by (subst FindUndefinedDSColumns_loop.simps) simp
qed

lemma FindUndefinedDSColumns_loop_bound:
  assumes "FindUndefinedDSColumns_loop requestedCols definedCols n i mustBeDefined = Some flags"
  shows "n < 2 ^ 32"
proof (rule FindUndefinedDSColumns_loop.raw_induct
    [where P = "\<lambda>_ _ n _ _ _. n < 2 ^ 32", OF _ assms])
  fix loop :: "string list \<Rightarrow> string list \<Rightarrow> nat \<Rightarrow> 32 word \<Rightarrow> bool list \<Rightarrow> bool list option"
  fix r d :: "string list" and n :: nat and i :: "32 word" and m y :: "bool list"
  assume IH: "\<And>r d n i m y. loop r d n i m = Some y \<Longrightarrow> n < 2 ^ 32"
    and run: "(if unat i < n
               then loop r d n (i + 1) (m[unat i := (r ! unat i \<notin> set d)])
               else Some m) = Some y"
  show "n < 2 ^ 32"
  proof (cases "unat i < n")
    case True
    with run IH show ?thesis by simp
  next
    case False
    have "unat i < 2 ^ LENGTH(32)" by (rule unsigned_less)
    with False show ?thesis by simp
  qed
qed

lemma FindUndefinedDSColumns_eq:
  assumes "length requestedCols < 2 ^ 32"
  shows "FindUndefinedDSColumns requestedCols definedCols =
         Some (map (\<lambda>c. c \<notin> set definedCols) requestedCols)"
  using assms
  by (simp add: FindUndefinedDSColumns_def FindUndefinedDSColumns_loop_returns)

text \<open>
  Claim C8, as the code has it. For every requested-column list of fewer than \<open>2 ^ 32\<close>
  names and every defined-column list, FindUndefinedDSColumns returns a boolean list
  of the same length as the requested list whose \<open>i\<close>-th element is true if and only if
  the \<open>i\<close>-th requested name is absent from the defined list; with an empty defined
  list every element is true.
\<close>

theorem C8_FindUndefinedDSColumns:
  assumes "length requestedCols < 2 ^ 32"
  shows "\<exists>flags. FindUndefinedDSColumns requestedCols definedCols = Some flags
           \<and> length flags = length requestedCols
           \<and> (\<forall>i < length requestedCols.
                 flags ! i \<longleftrightarrow> requestedCols ! i \<notin> set definedCols)
           \<and> (definedCols = [] \<longrightarrow> flags = replicate (length requestedCols) True)"
  using assms
  by (simp add: FindUndefinedDSColumns_eq map_replicate_const)

theorem C8_FindUndefinedDSColumns_witness:
  "FindUndefinedDSColumns [''pt'', ''eta'', ''phi''] [''eta''] = Some [True, False, True]"
  using C8_FindUndefinedDSColumns [of "[''pt'', ''eta'', ''phi'']" "[''eta'']"]
  by (auto simp: nth_Cons' less_Suc_eq list_eq_iff_nth_eq)

text \<open>
  The claim C8 as the specification states it, for every requested list, fails on a
  list of \<open>2 ^ 32\<close> names: the unsigned index never reaches the size, and the function
  does not return.
\<close>

theorem C8_FindUndefinedDSColumns_counterexample:
  "FindUndefinedDSColumns (replicate 4294967296 ''pt'') [] = None"
proof (cases "FindUndefinedDSColumns (replicate 4294967296 ''pt'') []")
  case None
  then show ?thesis .
next
  case (Some flags)
  then have "(4294967296 :: nat) < 2 ^ 32"
    using FindUndefinedDSColumns_loop_bound
      [of "replicate 4294967296 ''pt''" "[]" 4294967296 0 "replicate 4294967296 False" flags]
    by (simp add: FindUndefinedDSColumns_def)
  then show ?thesis by simp
qed

end
